theory Spec2Isabelle
  imports Complex_Main
begin

section \<open>Mumbai railway simulation: the simulation core of MumbaiRailway.tsx\<close>

text \<open>
  The component \<^verbatim>\<open>MumbaiRailway\<close> keeps the train registry, the disruption factor
  levels and the decision log in React state and changes them through updater functions.
  Each updater is modelled as a function from the previous state value to the next one.
  JavaScript numbers are modelled as exact reals (no rounding), and every value the
  browser supplies from outside (\<^verbatim>\<open>Math.random()\<close>, \<^verbatim>\<open>Date.now()\<close>, the locale time
  string) is an explicit argument.
\<close>

subsection \<open>Data model\<close>

datatype lineT = Western | CentralMain | TransHarbour

datatype statusT = Running | Delayed | OnTime | Cancelled | Critical

datatype directionT = UP | DOWN

text \<open>An entry of \<^verbatim>\<open>stationData\<close>; the fields carry the prefix \<^verbatim>\<open>s\<close> to keep them
  apart from the fields of a train.\<close>

record station =
  sname :: string
  slat :: real
  slon :: real
  sline :: lineT
  stype :: string

text \<open>The interface \<^verbatim>\<open>Train\<close>. The field \<^verbatim>\<open>id\<close> is \<open>trainId\<close> and \<^verbatim>\<open>next\<close> is
  \<open>nxt\<close>; dates are milliseconds since the epoch.\<close>

record Train =
  trainId :: string
  name :: string
  status :: statusT
  route :: string
  line :: lineT
  current :: string
  nxt :: string
  currentStation :: string
  nextStation :: string
  estimatedTime :: string
  eta :: int
  delay :: real
  passengers :: int
  speed :: real
  currentSpeed :: real
  lat :: real
  lon :: real
  positionInSegment :: real
  startStation :: string
  direction :: directionT
  startTime :: int
  distanceToNext :: real

record DisruptionFactors =
  rushHour :: real
  weather :: real
  junctionCongestion :: real
  equipmentReliability :: real
  festivalCrowds :: real
  platformStrain :: real
  staffEfficiency :: real
  externalDelays :: real

text \<open>\<^verbatim>\<open>keyof DisruptionFactors\<close>.\<close>

datatype factorKey =
  KRushHour | KWeather | KJunctionCongestion | KEquipmentReliability
  | KFestivalCrowds | KPlatformStrain | KStaffEfficiency | KExternalDelays

fun getFactor :: "DisruptionFactors \<Rightarrow> factorKey \<Rightarrow> real" where
  "getFactor d KRushHour = rushHour d"
| "getFactor d KWeather = weather d"
| "getFactor d KJunctionCongestion = junctionCongestion d"
| "getFactor d KEquipmentReliability = equipmentReliability d"
| "getFactor d KFestivalCrowds = festivalCrowds d"
| "getFactor d KPlatformStrain = platformStrain d"
| "getFactor d KStaffEfficiency = staffEfficiency d"
| "getFactor d KExternalDelays = externalDelays d"

fun setFactor :: "DisruptionFactors \<Rightarrow> factorKey \<Rightarrow> real \<Rightarrow> DisruptionFactors" where
  "setFactor d KRushHour v = d\<lparr>rushHour := v\<rparr>"
| "setFactor d KWeather v = d\<lparr>weather := v\<rparr>"
| "setFactor d KJunctionCongestion v = d\<lparr>junctionCongestion := v\<rparr>"
| "setFactor d KEquipmentReliability v = d\<lparr>equipmentReliability := v\<rparr>"
| "setFactor d KFestivalCrowds v = d\<lparr>festivalCrowds := v\<rparr>"
| "setFactor d KPlatformStrain v = d\<lparr>platformStrain := v\<rparr>"
| "setFactor d KStaffEfficiency v = d\<lparr>staffEfficiency := v\<rparr>"
| "setFactor d KExternalDelays v = d\<lparr>externalDelays := v\<rparr>"

text \<open>The initial value of the \<^verbatim>\<open>disruptionFactors\<close> state.\<close>

definition initialFactors :: DisruptionFactors where
  "initialFactors = \<lparr>rushHour = 0, weather = 0, junctionCongestion = 0,
     equipmentReliability = 0, festivalCrowds = 0, platformStrain = 0,
     staffEfficiency = 0, externalDelays = 0\<rparr>"

text \<open>The initial value of the \<^verbatim>\<open>aiDecisionLog\<close> state.\<close>

definition initialLog :: "string list" where
  "initialLog = [''[SYSTEM] AI Optimization Suite Initialized'',
     ''[READY] Awaiting activation command...'']"

subsection \<open>Topology\<close>

definition stationData :: "station list" where
  "stationData = [
    \<lparr>sname = ''Churchgate'', slat = 18.9322, slon = 72.8264, sline = Western, stype = ''Terminus''\<rparr>,
    \<lparr>sname = ''Marine Lines'', slat = 18.9434, slon = 72.8234, sline = Western, stype = ''Regular''\<rparr>,
    \<lparr>sname = ''Charni Road'', slat = 18.9515, slon = 72.8193, sline = Western, stype = ''Regular''\<rparr>,
    \<lparr>sname = ''Grant Road'', slat = 18.9659, slon = 72.8153, sline = Western, stype = ''Regular''\<rparr>,
    \<lparr>sname = ''Mumbai Central'', slat = 18.9693, slon = 72.8209, sline = Western, stype = ''Junction''\<rparr>,
    \<lparr>sname = ''Mahalaxmi'', slat = 18.9827, slon = 72.8269, sline = Western, stype = ''Regular''\<rparr>,
    \<lparr>sname = ''Lower Parel'', slat = 18.9961, slon = 72.8313, sline = Western, stype = ''Regular''\<rparr>,
    \<lparr>sname = ''Elphinstone Road'', slat = 19.0077, slon = 72.8311, sline = Western, stype = ''Junction''\<rparr>,
    \<lparr>sname = ''Dadar'', slat = 19.0176, slon = 72.8562, sline = Western, stype = ''Major Junction''\<rparr>,
    \<lparr>sname = ''Bandra'', slat = 19.0544, slon = 72.8407, sline = Western, stype = ''Major''\<rparr>,
    \<lparr>sname = ''Khar Road'', slat = 19.0728, slon = 72.8377, sline = Western, stype = ''Regular''\<rparr>,
    \<lparr>sname = ''Santacruz'', slat = 19.0815, slon = 72.8404, sline = Western, stype = ''Regular''\<rparr>,
    \<lparr>sname = ''Vile Parle'', slat = 19.0989, slon = 72.8472, sline = Western, stype = ''Regular''\<rparr>,
    \<lparr>sname = ''Andheri'', slat = 19.1197, slon = 72.8462, sline = Western, stype = ''Major''\<rparr>,
    \<lparr>sname = ''Jogeshwari'', slat = 19.1344, slon = 72.8514, sline = Western, stype = ''Regular''\<rparr>,
    \<lparr>sname = ''Ram Mandir'', slat = 19.1415, slon = 72.8400, sline = Western, stype = ''Regular''\<rparr>,
    \<lparr>sname = ''Goregaon'', slat = 19.1540, slon = 72.8503, sline = Western, stype = ''Regular''\<rparr>,
    \<lparr>sname = ''Malad'', slat = 19.1875, slon = 72.8482, sline = Western, stype = ''Regular''\<rparr>,
    \<lparr>sname = ''Kandivali'', slat = 19.2084, slon = 72.8527, sline = Western, stype = ''Regular''\<rparr>,
    \<lparr>sname = ''Borivali'', slat = 19.2307, slon = 72.8567, sline = Western, stype = ''Major''\<rparr>,
    \<lparr>sname = ''Dahisar'', slat = 19.2544, slon = 72.8610, sline = Western, stype = ''Regular''\<rparr>,
    \<lparr>sname = ''Mira Road'', slat = 19.2952, slon = 72.8739, sline = Western, stype = ''Regular''\<rparr>,
    \<lparr>sname = ''Bhayandar'', slat = 19.3017, slon = 72.8517, sline = Western, stype = ''Regular''\<rparr>,
    \<lparr>sname = ''Naigaon'', slat = 19.3589, slon = 72.8644, sline = Western, stype = ''Regular''\<rparr>,
    \<lparr>sname = ''Vasai Road'', slat = 19.3919, slon = 72.8397, sline = Western, stype = ''Junction''\<rparr>,
    \<lparr>sname = ''Nallasopara'', slat = 19.4170, slon = 72.8119, sline = Western, stype = ''Regular''\<rparr>,
    \<lparr>sname = ''Virar'', slat = 19.4559, slon = 72.8081, sline = Western, stype = ''Terminus''\<rparr>,
    \<lparr>sname = ''CST'', slat = 18.9398, slon = 72.8355, sline = CentralMain, stype = ''Terminus''\<rparr>,
    \<lparr>sname = ''Masjid'', slat = 18.9472, slon = 72.8317, sline = CentralMain, stype = ''Regular''\<rparr>,
    \<lparr>sname = ''Sandhurst Road'', slat = 18.9566, slon = 72.8415, sline = CentralMain, stype = ''Regular''\<rparr>,
    \<lparr>sname = ''Dockyard Road'', slat = 18.9671, slon = 72.8453, sline = CentralMain, stype = ''Regular''\<rparr>,
    \<lparr>sname = ''Reay Road'', slat = 18.9743, slon = 72.8467, sline = CentralMain, stype = ''Regular''\<rparr>,
    \<lparr>sname = ''Cotton Green'', slat = 18.9885, slon = 72.8511, sline = CentralMain, stype = ''Regular''\<rparr>,
    \<lparr>sname = ''Sewri'', slat = 18.9968, slon = 72.8566, sline = CentralMain, stype = ''Regular''\<rparr>,
    \<lparr>sname = ''Wadala Road'', slat = 19.0144, slon = 72.8577, sline = CentralMain, stype = ''Regular''\<rparr>,
    \<lparr>sname = ''Kings Circle'', slat = 19.0269, slon = 72.8590, sline = CentralMain, stype = ''Regular''\<rparr>,
    \<lparr>sname = ''Mahim'', slat = 19.0441, slon = 72.8397, sline = CentralMain, stype = ''Junction''\<rparr>,
    \<lparr>sname = ''Bandra Central'', slat = 19.0544, slon = 72.8407, sline = CentralMain, stype = ''Major''\<rparr>,
    \<lparr>sname = ''Khar Road Central'', slat = 19.0728, slon = 72.8377, sline = CentralMain, stype = ''Regular''\<rparr>,
    \<lparr>sname = ''Kurla'', slat = 19.0653, slon = 72.8789, sline = CentralMain, stype = ''Major Junction''\<rparr>,
    \<lparr>sname = ''Vidyavihar'', slat = 19.0825, slon = 72.8970, sline = CentralMain, stype = ''Regular''\<rparr>,
    \<lparr>sname = ''Ghatkopar'', slat = 19.0864, slon = 72.9081, sline = CentralMain, stype = ''Major''\<rparr>,
    \<lparr>sname = ''Vikhroli'', slat = 19.1056, slon = 72.9259, sline = CentralMain, stype = ''Regular''\<rparr>,
    \<lparr>sname = ''Kanjurmarg'', slat = 19.1289, slon = 72.9378, sline = CentralMain, stype = ''Regular''\<rparr>,
    \<lparr>sname = ''Bhandup'', slat = 19.1444, slon = 72.9378, sline = CentralMain, stype = ''Regular''\<rparr>,
    \<lparr>sname = ''Nahur'', slat = 19.1547, slon = 72.9556, sline = CentralMain, stype = ''Regular''\<rparr>,
    \<lparr>sname = ''Mulund'', slat = 19.1722, slon = 72.9561, sline = CentralMain, stype = ''Regular''\<rparr>,
    \<lparr>sname = ''Thane'', slat = 19.1972, slon = 72.9828, sline = CentralMain, stype = ''Major''\<rparr>,
    \<lparr>sname = ''Kalwa'', slat = 19.2192, slon = 73.0000, sline = CentralMain, stype = ''Regular''\<rparr>,
    \<lparr>sname = ''Mumbra'', slat = 19.2194, slon = 73.0342, sline = CentralMain, stype = ''Regular''\<rparr>,
    \<lparr>sname = ''Diva'', slat = 19.2542, slon = 73.0239, sline = CentralMain, stype = ''Junction''\<rparr>,
    \<lparr>sname = ''Kopar'', slat = 19.2692, slon = 73.0539, sline = CentralMain, stype = ''Regular''\<rparr>,
    \<lparr>sname = ''Dombivli'', slat = 19.2164, slon = 73.0864, sline = CentralMain, stype = ''Major''\<rparr>,
    \<lparr>sname = ''Thakurli'', slat = 19.1972, slon = 73.1122, sline = CentralMain, stype = ''Regular''\<rparr>,
    \<lparr>sname = ''Kalyan'', slat = 19.2437, slon = 73.1355, sline = CentralMain, stype = ''Major Junction''\<rparr>,
    \<lparr>sname = ''Thane Trans'', slat = 19.1972, slon = 72.9828, sline = TransHarbour, stype = ''Junction''\<rparr>,
    \<lparr>sname = ''Airoli'', slat = 19.1586, slon = 72.9972, sline = TransHarbour, stype = ''Regular''\<rparr>,
    \<lparr>sname = ''Ghansoli'', slat = 19.1197, slon = 73.0142, sline = TransHarbour, stype = ''Regular''\<rparr>,
    \<lparr>sname = ''Rabale'', slat = 19.1289, slon = 73.0203, sline = TransHarbour, stype = ''Regular''\<rparr>,
    \<lparr>sname = ''Belapur CBD'', slat = 19.0378, slon = 73.0158, sline = TransHarbour, stype = ''Major''\<rparr>,
    \<lparr>sname = ''Kharghar'', slat = 19.0447, slon = 73.0669, sline = TransHarbour, stype = ''Regular''\<rparr>,
    \<lparr>sname = ''Mansarovar'', slat = 19.0331, slon = 73.0708, sline = TransHarbour, stype = ''Regular''\<rparr>,
    \<lparr>sname = ''Khandeshwar'', slat = 19.0275, slon = 73.0847, sline = TransHarbour, stype = ''Regular''\<rparr>,
    \<lparr>sname = ''Panvel'', slat = 18.9894, slon = 73.1169, sline = TransHarbour, stype = ''Terminus''\<rparr>,
    \<lparr>sname = ''Nerul'', slat = 19.0328, slon = 73.0158, sline = TransHarbour, stype = ''Regular''\<rparr>,
    \<lparr>sname = ''Juinagar'', slat = 19.0447, slon = 73.0067, sline = TransHarbour, stype = ''Regular''\<rparr>]"

text \<open>\<^verbatim>\<open>stationData.filter(s => s.line === line)\<close>.\<close>

definition lineStations :: "lineT \<Rightarrow> station list" where
  "lineStations l = filter (\<lambda>s. sline s = l) stationData"

subsection \<open>JavaScript helpers\<close>

datatype error = TypeError

text \<open>\<^verbatim>\<open>xs[i]\<close>: \<^verbatim>\<open>undefined\<close> (here \<open>None\<close>) outside the array.\<close>

definition getAt :: "'a list \<Rightarrow> int \<Rightarrow> 'a option" where
  "getAt xs i = (if 0 \<le> i \<and> i < int (length xs) then Some (xs ! nat i) else None)"

text \<open>\<^verbatim>\<open>xs.findIndex(p)\<close>: the first index whose element satisfies \<open>p\<close>, or \<open>-1\<close>.\<close>

fun findIndex :: "('a \<Rightarrow> bool) \<Rightarrow> 'a list \<Rightarrow> int" where
  "findIndex p [] = -1"
| "findIndex p (x # xs) =
     (if p x then 0 else (let r = findIndex p xs in if r < 0 then -1 else r + 1))"

text \<open>Truncation towards zero, as in the remainder operator and in \<^verbatim>\<open>new Date(x)\<close>.\<close>

definition trunc :: "real \<Rightarrow> int" where
  "trunc x = (if 0 \<le> x then \<lfloor>x\<rfloor> else \<lceil>x\<rceil>)"

text \<open>\<^verbatim>\<open>x % y\<close> on numbers: the result takes the sign of the dividend.\<close>

definition jsRem :: "real \<Rightarrow> real \<Rightarrow> real" where
  "jsRem x y = x - y * of_int (trunc (x / y))"

text \<open>\<^verbatim>\<open>new Date(x)\<close> keeps the integral part of the time value.\<close>

definition newDate :: "real \<Rightarrow> int" where
  "newDate x = trunc x"

text \<open>\<^verbatim>\<open>String(n)\<close> for a natural number: its decimal digits.\<close>

fun showNat :: "nat \<Rightarrow> string" where
  "showNat n =
     (if n < 10 then [char_of (48 + n)]
      else showNat (n div 10) @ [char_of (48 + n mod 10)])"

declare showNat.simps [simp del]

text \<open>\<^verbatim>\<open>String(i)\<close> for an integer.\<close>

definition showInt :: "int \<Rightarrow> string" where
  "showInt i = (if i < 0 then ''-'' @ showNat (nat (- i)) else showNat (nat i))"

text \<open>\<^verbatim>\<open>s.padStart(k, '0')\<close>.\<close>

definition padStart0 :: "nat \<Rightarrow> string \<Rightarrow> string" where
  "padStart0 k s = replicate (k - length s) (CHR ''0'') @ s"

text \<open>\<^verbatim>\<open>s.toUpperCase()\<close> on ASCII text: the letters a to z are raised, every other
  character is kept.\<close>

definition upperChar :: "char \<Rightarrow> char" where
  "upperChar c =
     (let n = (of_char c :: nat) in if 97 \<le> n \<and> n \<le> 122 then char_of (n - 32) else c)"

definition toUpperCase :: "string \<Rightarrow> string" where
  "toUpperCase s = map upperChar s"

text \<open>The string value of a line, as the template strings print it.\<close>

fun lineName :: "lineT \<Rightarrow> string" where
  "lineName Western = ''Western''"
| "lineName CentralMain = ''Central Main''"
| "lineName TransHarbour = ''Trans-Harbour''"

subsection \<open>Decision log\<close>

text \<open>\<^verbatim>\<open>addAiDecisionLog\<close>: the updater of the log state. The argument \<open>timestamp\<close> is
  the value of \<^verbatim>\<open>new Date().toLocaleTimeString()\<close>.\<close>

definition addAiDecisionLog :: "string \<Rightarrow> string \<Rightarrow> string list \<Rightarrow> string list" where
  "addAiDecisionLog timestamp message prev =
     (''['' @ timestamp @ ''] '' @ message) # take 9 prev"

subsection \<open>Disruption factors\<close>

text \<open>\<^verbatim>\<open>addDisruptionFactor\<close>: the updater of the factor state.\<close>

definition addDisruptionFactor :: "factorKey \<Rightarrow> DisruptionFactors \<Rightarrow> DisruptionFactors" where
  "addDisruptionFactor factor prev = setFactor prev factor (min (getFactor prev factor + 1) 5)"

subsection \<open>Position tick\<close>

text \<open>What the browser supplies while one train is updated, in the order of the calls:
  the draw of \<^verbatim>\<open>Math.random()\<close> for the delay, for \<^verbatim>\<open>estimatedTime\<close>, for the
  passengers, then \<^verbatim>\<open>Date.now()\<close> and the draw for \<^verbatim>\<open>eta\<close>.\<close>

record TickDraws =
  tDelay :: real
  tEstimated :: real
  tPassengers :: real
  tNowEta :: real
  tEta :: real

text \<open>A draw of \<^verbatim>\<open>Math.random()\<close> lies in \<open>[0, 1)\<close>.\<close>

definition unitDraw :: "real \<Rightarrow> bool" where
  "unitDraw r = (0 \<le> r \<and> r < 1)"

text \<open>The same for the values supplied to one update of a train.\<close>

definition validTick :: "TickDraws \<Rightarrow> bool" where
  "validTick d = (unitDraw (tDelay d) \<and> unitDraw (tEstimated d) \<and> unitDraw (tPassengers d)
     \<and> 0 \<le> tNowEta d \<and> unitDraw (tEta d))"

text \<open>Lines 362 to 366 of \<^verbatim>\<open>updateTrainPositions\<close>: the multiplier is built up by four
  additions in this order.\<close>

definition delayMultiplier :: "DisruptionFactors \<Rightarrow> real" where
  "delayMultiplier fs =
     (let m = 1.0;
          m = m + rushHour fs * 0.5;
          m = m + weather fs * 0.3;
          m = m + junctionCongestion fs * 0.4;
          m = m + equipmentReliability fs * 0.6
      in m)"

text \<open>Lines 337 to 352: the new segment position and the two station indices, from the
  number of stations of the line, the old position and the index found for the current
  station.\<close>

definition advance :: "int \<Rightarrow> real \<Rightarrow> int \<Rightarrow> real \<times> int \<times> int" where
  "advance len pos found =
     (let newPositionInSegment = pos + 0.05;
          currentIndex = found;
          nextIndex = currentIndex + 1
      in if newPositionInSegment \<ge> 1.0 then
           (let currentIndex = nextIndex;
                nextIndex = min (currentIndex + 1) (len - 1)
            in if currentIndex \<ge> len - 1 then (0, 0, 1) else (0, currentIndex, nextIndex))
         else (newPositionInSegment, currentIndex, nextIndex))"

text \<open>The callback of \<^verbatim>\<open>prevTrains.map\<close> in \<^verbatim>\<open>updateTrainPositions\<close>. Reading a field
  of \<^verbatim>\<open>undefined\<close> raises a TypeError.\<close>

definition updateTrain :: "DisruptionFactors \<Rightarrow> TickDraws \<Rightarrow> Train \<Rightarrow> error + Train" where
  "updateTrain fs d train =
     (let ls = lineStations (line train) in
      if length ls < 2 then Inr train
      else
        (case advance (int (length ls)) (positionInSegment train)
                (findIndex (\<lambda>s. sname s = current train) ls) of
           (newPositionInSegment, currentIndex, nextIndex) \<Rightarrow>
             (case getAt ls currentIndex of
                None \<Rightarrow> Inl TypeError
              | Some cur \<Rightarrow>
                 (case getAt ls nextIndex of
                    None \<Rightarrow> Inl TypeError
                  | Some nx \<Rightarrow>
                     (let newLat = slat cur + (slat nx - slat cur) * newPositionInSegment;
                          newLon = slon cur + (slon nx - slon cur) * newPositionInSegment;
                          newDelay = delay train + (tDelay d * 0.5 * delayMultiplier fs)
                      in Inr (train\<lparr>
                           current := sname cur,
                           nxt := sname nx,
                           currentStation := sname cur,
                           nextStation := sname nx,
                           positionInSegment := newPositionInSegment,
                           lat := newLat,
                           lon := newLon,
                           delay := newDelay,
                           status := (if newDelay > 5 then Critical
                                      else if newDelay > 2 then Delayed else OnTime),
                           estimatedTime := showInt (\<lfloor>tEstimated d * 8\<rfloor> + 2) @ '' mins'',
                           passengers :=
                             min (passengers train + \<lfloor>tPassengers d * 50 - 20\<rfloor>) 2000,
                           eta := newDate (tNowEta d + (tEta d * 8 + 3) * 60000)\<rparr>))))))"

text \<open>A map whose callback may raise: the first error ends it.\<close>

fun mapE :: "('a \<Rightarrow> error + 'b) \<Rightarrow> 'a list \<Rightarrow> error + 'b list" where
  "mapE f [] = Inr []"
| "mapE f (x # xs) =
     (case f x of
        Inl e \<Rightarrow> Inl e
      | Inr y \<Rightarrow> (case mapE f xs of Inl e \<Rightarrow> Inl e | Inr ys \<Rightarrow> Inr (y # ys)))"

text \<open>\<^verbatim>\<open>updateTrainPositions\<close>: the updater of the registry. It reads the factor levels
  \<open>fs\<close> in the scope of its closure; \<open>env i\<close> is what the browser supplies for the train at
  position \<open>i\<close>.\<close>

definition updateTrainPositions ::
  "DisruptionFactors \<Rightarrow> (nat \<Rightarrow> TickDraws) \<Rightarrow> Train list \<Rightarrow> error + Train list" where
  "updateTrainPositions fs env prevTrains =
     mapE (\<lambda>(i, train). updateTrain fs (env i) train) (enumerate 0 prevTrains)"

subsection \<open>Initialization\<close>

text \<open>What the browser supplies while one train is created, in the order of the calls.\<close>

record InitDraws =
  iNow :: real
  iPassengers :: real
  iDelay :: real
  iEstimated :: real
  iNowEta :: real
  iEta :: real
  iSpeed :: real
  iCurrentSpeed :: real
  iNowStart :: real
  iStart :: real
  iDistance :: real

text \<open>The clock reads a time at or after the epoch (\<^verbatim>\<open>Date.now()\<close> is not negative) and
  every draw lies in \<open>[0, 1)\<close>.\<close>

definition validInit :: "InitDraws \<Rightarrow> bool" where
  "validInit d = (0 \<le> iNow d \<and> unitDraw (iPassengers d) \<and> unitDraw (iDelay d)
     \<and> unitDraw (iEstimated d) \<and> 0 \<le> iNowEta d \<and> unitDraw (iEta d) \<and> unitDraw (iSpeed d)
     \<and> unitDraw (iCurrentSpeed d) \<and> 0 \<le> iNowStart d \<and> unitDraw (iStart d)
     \<and> unitDraw (iDistance d))"

text \<open>The body of the inner loop of \<^verbatim>\<open>initializeTrains\<close> for train \<open>i\<close> of a line,
  on the list \<^verbatim>\<open>initialTrains\<close> built so far.\<close>

definition initTrain ::
  "lineT \<Rightarrow> nat \<Rightarrow> nat \<Rightarrow> InitDraws \<Rightarrow> Train list \<Rightarrow> error + Train list" where
  "initTrain theLine lineIndex i d initialTrains =
     (let ls = lineStations theLine;
          tid = take 1 (lineName theLine) @ padStart0 3 (showNat (i + 1));
          dir = (if i mod 2 = 0 then UP else DOWN)
      in if length ls \<ge> 2 then
           (let progress = jsRem (iNow d / 60000 + real lineIndex * 20 + real i * 15) 60 / 60;
                stationProgress = progress * (real (length ls) - 1);
                currentIndex = \<lfloor>stationProgress\<rfloor>;
                nextIndex = min (currentIndex + 1) (int (length ls) - 1)
            in case getAt ls currentIndex of
                 None \<Rightarrow> Inl TypeError
               | Some cur \<Rightarrow>
                  (case getAt ls nextIndex of
                     None \<Rightarrow> Inl TypeError
                   | Some nx \<Rightarrow>
                      (let pos = stationProgress - of_int currentIndex;
                           basePassengers = \<lfloor>iPassengers d * 600 + 200\<rfloor>;
                           baseDelay = iDelay d * 3
                       in Inr (initialTrains @ [\<lparr>
                            trainId = tid,
                            name = lineName theLine @ '' Local'',
                            status = (if baseDelay > 2 then Delayed
                                      else if baseDelay > 5 then Critical else OnTime),
                            route = sname (ls ! 0) @ '' - '' @ sname (ls ! (length ls - 1)),
                            line = theLine,
                            current = sname cur,
                            nxt = sname nx,
                            currentStation = sname cur,
                            nextStation = sname nx,
                            estimatedTime = showInt (\<lfloor>iEstimated d * 8\<rfloor> + 2) @ '' mins'',
                            eta = newDate (iNowEta d + (iEta d * 8 + 3) * 60000),
                            delay = baseDelay,
                            passengers = basePassengers,
                            speed = 45 + iSpeed d * 20,
                            currentSpeed = 45 + iCurrentSpeed d * 20,
                            lat = slat cur + (slat nx - slat cur) * pos,
                            lon = slon cur + (slon nx - slon cur) * pos,
                            positionInSegment = pos,
                            startStation = sname (ls ! 0),
                            direction = dir,
                            startTime = newDate (iNowStart d - iStart d * 3600000),
                            distanceToNext = iDistance d * 2 + 0.5\<rparr>]))))
         else Inr initialTrains)"

text \<open>A loop over a list whose body updates an accumulator and may raise.\<close>

fun foldE :: "('a \<Rightarrow> 's \<Rightarrow> error + 's) \<Rightarrow> 'a list \<Rightarrow> 's \<Rightarrow> error + 's" where
  "foldE f [] s = Inr s"
| "foldE f (x # xs) s = (case f x s of Inl e \<Rightarrow> Inl e | Inr s' \<Rightarrow> foldE f xs s')"

text \<open>The body of \<^verbatim>\<open>lines.forEach\<close>: the loop over the trains of one line.\<close>

definition initLine ::
  "(nat \<Rightarrow> nat \<Rightarrow> InitDraws) \<Rightarrow> nat \<times> lineT \<Rightarrow> Train list \<Rightarrow> error + Train list" where
  "initLine ienv = (\<lambda>(lineIndex, theLine) initialTrains.
     (let trainCount = (if theLine = Western then 15 else if theLine = CentralMain then 15 else 10 :: nat)
      in foldE (\<lambda>i. initTrain theLine lineIndex i (ienv lineIndex i)) [0..<trainCount]
           initialTrains))"

text \<open>\<^verbatim>\<open>initializeTrains\<close>; \<open>ienv lineIndex i\<close> is what the browser supplies for train
  \<open>i\<close> of the line at \<open>lineIndex\<close>.\<close>

definition initializeTrains :: "(nat \<Rightarrow> nat \<Rightarrow> InitDraws) \<Rightarrow> error + Train list" where
  "initializeTrains ienv =
     foldE (initLine ienv) (enumerate 0 [Western, CentralMain, TransHarbour]) []"

subsection \<open>Manual actions and the simulation state\<close>

record SimState =
  trains :: "Train list"
  disruptionFactors :: DisruptionFactors
  aiDecisionLog :: "string list"

text \<open>The callback of \<^verbatim>\<open>prevTrains.map\<close> in \<^verbatim>\<open>performQuickAction\<close>.\<close>

definition quickActionTrain :: "string \<Rightarrow> string \<Rightarrow> Train \<Rightarrow> Train" where
  "quickActionTrain action tid train =
     (if trainId train = tid then
        (if action = ''hold'' then train\<lparr>delay := delay train + 3, status := Delayed\<rparr>
         else if action = ''swap'' then train\<lparr>delay := max 0 (delay train - 2)\<rparr>
         else if action = ''reroute'' then train\<lparr>delay := delay train + 8, status := Critical\<rparr>
         else train)
      else train)"

text \<open>\<^verbatim>\<open>performQuickAction\<close>: the registry updater, then the log entry.\<close>

definition performQuickAction :: "string \<Rightarrow> string \<Rightarrow> string \<Rightarrow> SimState \<Rightarrow> SimState" where
  "performQuickAction action tid timestamp st =
     st\<lparr>trains := map (quickActionTrain action tid) (trains st),
        aiDecisionLog :=
          addAiDecisionLog timestamp
            (''[ACTION] '' @ toUpperCase action @ '' applied to '' @ tid) (aiDecisionLog st)\<rparr>"

text \<open>Every factor level is one of the integers 0 to 5.\<close>

definition factorsInRange :: "DisruptionFactors \<Rightarrow> bool" where
  "factorsInRange fs = list_all (\<lambda>k. getFactor fs k \<in> {0, 1, 2, 3, 4, 5})
     [KRushHour, KWeather, KJunctionCongestion, KEquipmentReliability,
      KFestivalCrowds, KPlatformStrain, KStaffEfficiency, KExternalDelays]"

text \<open>The whole simulation state at mount time.\<close>

definition initialState :: SimState where
  "initialState = \<lparr>trains = [], disruptionFactors = initialFactors,
     aiDecisionLog = initialLog\<rparr>"

text \<open>A run of the component: the simulation is started and stopped, the position tick
  fires, the user raises a factor or applies a quick action, and any caller of
  \<^verbatim>\<open>addAiDecisionLog\<close> (the decision cycle, the toggle) appends a line.

  The tick does not read the current factor levels. The interval callback that
  \<^verbatim>\<open>startSimulation\<close> registers (lines 277 to 279) calls the \<^verbatim>\<open>updateTrainPositions\<close> of
  the render in which the simulation was started, and that closure reads the
  \<^verbatim>\<open>disruptionFactors\<close> of that render: the levels captured at a start, which later
  increments do not change. Every captured value is a value the factor state once had,
  so it is in range; rule \<open>r_tick\<close> lets the tick read any levels \<open>fs\<close> in range, which
  covers every capture (and the current levels too).\<close>

inductive reachable :: "SimState \<Rightarrow> bool" where
  r_initial: "reachable initialState"
| r_start: "reachable st \<Longrightarrow> (\<And>li i. validInit (ienv li i)) \<Longrightarrow>
     initializeTrains ienv = Inr ts \<Longrightarrow> reachable (st\<lparr>trains := ts\<rparr>)"
| r_stop: "reachable st \<Longrightarrow> reachable (st\<lparr>trains := []\<rparr>)"
| r_tick: "reachable st \<Longrightarrow> factorsInRange fs \<Longrightarrow> (\<And>i. validTick (env i)) \<Longrightarrow>
     updateTrainPositions fs env (trains st) = Inr ts \<Longrightarrow>
     reachable (st\<lparr>trains := ts\<rparr>)"
| r_factor: "reachable st \<Longrightarrow>
     reachable (st\<lparr>disruptionFactors := addDisruptionFactor k (disruptionFactors st)\<rparr>)"
| r_action: "reachable st \<Longrightarrow> reachable (performQuickAction action tid timestamp st)"
| r_log: "reachable st \<Longrightarrow>
     reachable (st\<lparr>aiDecisionLog := addAiDecisionLog timestamp message (aiDecisionLog st)\<rparr>)"

subsection \<open>Properties under study\<close>

text \<open>A sequence of log appends, each with its time string and message, oldest call first.\<close>

definition appendAll :: "(string \<times> string) list \<Rightarrow> string list \<Rightarrow> string list" where
  "appendAll es prev = fold (\<lambda>(timestamp, message). addAiDecisionLog timestamp message) es prev"

text \<open>The position of a train is sound: the segment progress lies in \<open>[0, 1)\<close>, and the
  indices of its current and next station in the station list of its line are in bounds,
  different, and adjacent.\<close>

definition wellPlaced :: "Train \<Rightarrow> bool" where
  "wellPlaced t =
     (let ls = lineStations (line t);
          ci = findIndex (\<lambda>s. sname s = current t) ls;
          ni = findIndex (\<lambda>s. sname s = nxt t) ls
      in 0 \<le> positionInSegment t \<and> positionInSegment t < 1
         \<and> 0 \<le> ci \<and> ci < int (length ls) \<and> 0 \<le> ni \<and> ni < int (length ls)
         \<and> ci \<noteq> ni \<and> ni = ci + 1)"

text \<open>The status that the thresholds of the tick give to a delay.\<close>

definition statusOfDelay :: "real \<Rightarrow> statusT" where
  "statusOfDelay x = (if x > 5 then Critical else if x > 2 then Delayed else OnTime)"

text \<open>The invariant of a train in the registry, and of the whole state.\<close>

definition trainInv :: "Train \<Rightarrow> bool" where
  "trainInv t = (wellPlaced t \<and> 0 \<le> delay t)"

definition stateInv :: "SimState \<Rightarrow> bool" where
  "stateInv st = (list_all trainInv (trains st) \<and> factorsInRange (disruptionFactors st)
     \<and> length (aiDecisionLog st) \<le> 10)"

subsection \<open>Concrete inputs\<close>

text \<open>Draws for one created train: the clock at 135 seconds after the epoch and every
  draw of \<^verbatim>\<open>Math.random()\<close> equal to 0.\<close>

definition sampleInitDraws :: InitDraws where
  "sampleInitDraws = \<lparr>iNow = 135000, iPassengers = 0, iDelay = 0, iEstimated = 0,
     iNowEta = 135000, iEta = 0, iSpeed = 0, iCurrentSpeed = 0, iNowStart = 135000,
     iStart = 0, iDistance = 0\<rparr>"

text \<open>Draws for one updated train: the delay draw is one half, the others are 0.\<close>

definition sampleTickDraws :: TickDraws where
  "sampleTickDraws = \<lparr>tDelay = 1 / 2, tEstimated = 0, tPassengers = 0, tNowEta = 136000,
     tEta = 0\<rparr>"

text \<open>The first Western train that \<^verbatim>\<open>initializeTrains\<close> creates under
  \<open>sampleInitDraws\<close>, and the same train after one tick with all factors at zero.\<close>

definition sampleW001 :: Train where
  "sampleW001 = \<lparr>trainId = ''W001'', name = ''Western Local'', status = OnTime,
     route = ''Churchgate - Virar'', line = Western,
     current = ''Churchgate'', nxt = ''Marine Lines'',
     currentStation = ''Churchgate'', nextStation = ''Marine Lines'',
     estimatedTime = ''2 mins'', eta = 315000, delay = 0,
     passengers = 200, speed = 45, currentSpeed = 45,
     lat = 236789 / 12500, lon = 2912939 / 40000,
     positionInSegment = 39 / 40, startStation = ''Churchgate'',
     direction = UP, startTime = 135000, distanceToNext = 1 / 2\<rparr>"

definition sampleW001Next :: Train where
  "sampleW001Next = sampleW001\<lparr>current := ''Marine Lines'', nxt := ''Charni Road'',
     currentStation := ''Marine Lines'', nextStation := ''Charni Road'',
     eta := 316000, delay := 1 / 4, passengers := 180,
     lat := 94717 / 5000, lon := 364117 / 5000, positionInSegment := 0\<rparr>"

text \<open>A train one station before the terminus of the Western line, about to arrive.\<close>

definition sampleBeforeTerminus :: Train where
  "sampleBeforeTerminus = sampleW001\<lparr>current := ''Nallasopara'', nxt := ''Virar'',
     currentStation := ''Nallasopara'', nextStation := ''Virar'',
     positionInSegment := 24 / 25\<rparr>"

text \<open>Rush hour at level 5, every other factor at zero.\<close>

definition rushFactors :: DisruptionFactors where
  "rushFactors = initialFactors\<lparr>rushHour := 5\<rparr>"

text \<open>A state whose registry holds the one train \<open>sampleW001\<close>.\<close>

definition sampleState :: SimState where
  "sampleState = initialState\<lparr>trains := [sampleW001]\<rparr>"

text \<open>The callback of the tick applied \<open>n\<close> times to one train, with the same draws.\<close>

fun tickTimes :: "DisruptionFactors \<Rightarrow> TickDraws \<Rightarrow> nat \<Rightarrow> Train \<Rightarrow> error + Train" where
  "tickTimes fs d 0 t = Inr t"
| "tickTimes fs d (Suc n) t =
     (case updateTrain fs d t of Inl e \<Rightarrow> Inl e | Inr t' \<Rightarrow> tickTimes fs d n t')"

section \<open>Verification\<close>

subsection \<open>Topology and helper facts\<close>

lemma length_lineStations:
  "length (lineStations l) = (case l of Western \<Rightarrow> 27 | CentralMain \<Rightarrow> 28 | TransHarbour \<Rightarrow> 11)"
  by (cases l) (simp_all add: lineStations_def stationData_def)

lemma lineStations_ge2: "2 \<le> length (lineStations l)"
  by (simp add: length_lineStations split: lineT.splits)

lemma distinct_lineStations: "distinct (map sname (lineStations l))"
  by (cases l) (simp_all add: lineStations_def stationData_def)

lemma findIndex_nth_distinct:
  "distinct (map f xs) \<Longrightarrow> i < length xs \<Longrightarrow> findIndex (\<lambda>s. f s = f (xs ! i)) xs = int i"
proof (induction xs arbitrary: i)
  case Nil
  then show ?case by simp
next
  case (Cons x xs)
  show ?case
  proof (cases i)
    case 0
    then show ?thesis by simp
  next
    case (Suc j)
    with Cons.prems have j: "j < length xs" and d: "distinct (map f xs)"
      and nx: "f x \<notin> f ` set xs" by auto
    from j nx have "f x \<noteq> f (xs ! j)" by (metis imageI nth_mem)
    moreover have "findIndex (\<lambda>s. f s = f (xs ! j)) xs = int j" using Cons.IH [OF d j] .
    ultimately show ?thesis using Suc by (simp add: Let_def)
  qed
qed

lemma getAt_in: "0 \<le> i \<Longrightarrow> i < int (length xs) \<Longrightarrow> getAt xs i = Some (xs ! nat i)"
  by (simp add: getAt_def)

lemma jsRem_range:
  assumes "0 \<le> x"
  shows "0 \<le> jsRem x 60 \<and> jsRem x 60 < 60"
proof -
  have t: "trunc (x / 60) = \<lfloor>x / 60\<rfloor>" using assms by (simp add: trunc_def)
  have "of_int \<lfloor>x / 60\<rfloor> \<le> x / 60" "x / 60 < of_int \<lfloor>x / 60\<rfloor> + 1" by linarith+
  then show ?thesis unfolding jsRem_def t by (simp add: field_simps)
qed

lemma advance_inv:
  assumes "0 \<le> found" "found + 1 < len" "0 \<le> pos" "pos < 1"
    and "advance len pos found = (p, ci, ni)"
  shows "0 \<le> p \<and> p < 1 \<and> 0 \<le> ci \<and> ni = ci + 1 \<and> ni < len
     \<and> p = (if pos + 0.05 \<ge> 1 then 0 else pos + 0.05)"
  using assms by (auto simp: advance_def Let_def split: if_splits)

subsection \<open>Decision log\<close>

lemma length_addAiDecisionLog: "length (addAiDecisionLog ts m prev) \<le> 10"
  by (simp add: addAiDecisionLog_def)

lemma length_appendAll: "length prev \<le> 10 \<Longrightarrow> length (appendAll es prev) \<le> 10"
proof (induction es arbitrary: prev)
  case Nil
  then show ?case by (simp add: appendAll_def)
next
  case (Cons e es)
  obtain ts m where e: "e = (ts, m)" by (cases e)
  have "length (appendAll es (addAiDecisionLog ts m prev)) \<le> 10"
    by (rule Cons.IH) (rule length_addAiDecisionLog)
  then show ?case by (simp add: appendAll_def e)
qed

text \<open>
  C10. An append puts the new entry, the time string in brackets before the message, at
  the front; behind it come the first nine entries of the previous log, unchanged and in
  their order, so only the oldest entries beyond the ninth are dropped; the length is
  at most ten after one append and after any sequence of appends to the initial log.
\<close>

theorem log_append_front_bounded:
  "hd (addAiDecisionLog ts m prev) = ''['' @ ts @ ''] '' @ m
   \<and> tl (addAiDecisionLog ts m prev) = take 9 prev
   \<and> tl (addAiDecisionLog ts m prev) @ drop 9 prev = prev
   \<and> length (addAiDecisionLog ts m prev) = min (length prev) 9 + 1
   \<and> length (addAiDecisionLog ts m prev) \<le> 10
   \<and> length (appendAll es initialLog) \<le> 10"
proof -
  have "length initialLog \<le> 10" by (simp add: initialLog_def)
  then have "length (appendAll es initialLog) \<le> 10" by (rule length_appendAll)
  then show ?thesis by (simp add: addAiDecisionLog_def)
qed

subsection \<open>Disruption factors\<close>

lemma getFactor_setFactor:
  "getFactor (setFactor d k v) k' = (if k' = k then v else getFactor d k')"
  by (cases k; cases k'; simp)

lemma factorsInRange_iff: "factorsInRange fs \<longleftrightarrow> (\<forall>k. getFactor fs k \<in> {0, 1, 2, 3, 4, 5})"
proof
  assume "factorsInRange fs"
  then show "\<forall>k. getFactor fs k \<in> {0, 1, 2, 3, 4, 5}"
    unfolding factorsInRange_def by (intro allI, case_tac k) simp_all
next
  assume "\<forall>k. getFactor fs k \<in> {0, 1, 2, 3, 4, 5}"
  then show "factorsInRange fs"
    unfolding factorsInRange_def list_all_iff by blast
qed

lemma factorsInRange_initial: "factorsInRange initialFactors"
  by (simp add: factorsInRange_def initialFactors_def)

lemma factorsInRange_add:
  assumes "factorsInRange fs"
  shows "factorsInRange (addDisruptionFactor k fs)"
proof -
  have a: "getFactor fs k' \<in> {0, 1, 2, 3, 4, 5}" for k'
    using assms by (simp add: factorsInRange_iff)
  have "getFactor (addDisruptionFactor k fs) k' \<in> {0, 1, 2, 3, 4, 5}" for k'
    using a [of k] a [of k'] by (auto simp: addDisruptionFactor_def getFactor_setFactor)
  then show ?thesis by (simp add: factorsInRange_iff)
qed

lemma factorsInRange_fold:
  "factorsInRange fs \<Longrightarrow> factorsInRange (fold addDisruptionFactor ks fs)"
  by (induction ks arbitrary: fs) (simp_all add: factorsInRange_add)

text \<open>
  C8. After any sequence \<open>ks\<close> of increment calls from the initial all-zero levels, every
  factor level is one of the integers 0 to 5; one more increment of factor \<open>k\<close> raises its
  level by 1 when it is below 5, leaves it at 5 otherwise, and changes no other factor.
\<close>

theorem factor_levels_bounded:
  "getFactor (fold addDisruptionFactor ks initialFactors) k' \<in> {0, 1, 2, 3, 4, 5}
   \<and> getFactor (addDisruptionFactor k (fold addDisruptionFactor ks initialFactors)) k' =
       (if k' \<noteq> k then getFactor (fold addDisruptionFactor ks initialFactors) k'
        else if getFactor (fold addDisruptionFactor ks initialFactors) k < 5
        then getFactor (fold addDisruptionFactor ks initialFactors) k + 1
        else 5)"
proof -
  have r: "factorsInRange (fold addDisruptionFactor ks initialFactors)"
    by (rule factorsInRange_fold) (rule factorsInRange_initial)
  then have "getFactor (fold addDisruptionFactor ks initialFactors) k \<in> {0, 1, 2, 3, 4, 5}"
    and "getFactor (fold addDisruptionFactor ks initialFactors) k' \<in> {0, 1, 2, 3, 4, 5}"
    by (simp_all add: factorsInRange_iff)
  then show ?thesis
    by (auto simp: addDisruptionFactor_def getFactor_setFactor)
qed

subsection \<open>The tick on one train and on the registry\<close>

lemma updateTrain_InrE:
  assumes "updateTrain fs d t = Inr t'"
  obtains p ci ni cur nx where
    "advance (int (length (lineStations (line t)))) (positionInSegment t)
       (findIndex (\<lambda>s. sname s = current t) (lineStations (line t))) = (p, ci, ni)"
    and "getAt (lineStations (line t)) ci = Some cur"
    and "getAt (lineStations (line t)) ni = Some nx"
    and "t' = t\<lparr>
           current := sname cur,
           nxt := sname nx,
           currentStation := sname cur,
           nextStation := sname nx,
           positionInSegment := p,
           lat := slat cur + (slat nx - slat cur) * p,
           lon := slon cur + (slon nx - slon cur) * p,
           delay := delay t + (tDelay d * 0.5 * delayMultiplier fs),
           status := statusOfDelay (delay t + (tDelay d * 0.5 * delayMultiplier fs)),
           estimatedTime := showInt (\<lfloor>tEstimated d * 8\<rfloor> + 2) @ '' mins'',
           passengers := min (passengers t + \<lfloor>tPassengers d * 50 - 20\<rfloor>) 2000,
           eta := newDate (tNowEta d + (tEta d * 8 + 3) * 60000)\<rparr>"
proof -
  have n: "\<not> length (lineStations (line t)) < 2"
    using lineStations_ge2 [of "line t"] by simp
  obtain p ci ni where a: "advance (int (length (lineStations (line t)))) (positionInSegment t)
       (findIndex (\<lambda>s. sname s = current t) (lineStations (line t))) = (p, ci, ni)"
    by (cases "advance (int (length (lineStations (line t)))) (positionInSegment t)
       (findIndex (\<lambda>s. sname s = current t) (lineStations (line t)))") auto
  from assms n a obtain cur where c: "getAt (lineStations (line t)) ci = Some cur"
    by (auto simp: updateTrain_def Let_def split: option.splits)
  from assms n a c obtain nx where x: "getAt (lineStations (line t)) ni = Some nx"
    by (auto simp: updateTrain_def Let_def split: option.splits)
  from assms n a c x have "t' = t\<lparr>
           current := sname cur,
           nxt := sname nx,
           currentStation := sname cur,
           nextStation := sname nx,
           positionInSegment := p,
           lat := slat cur + (slat nx - slat cur) * p,
           lon := slon cur + (slon nx - slon cur) * p,
           delay := delay t + (tDelay d * 0.5 * delayMultiplier fs),
           status := statusOfDelay (delay t + (tDelay d * 0.5 * delayMultiplier fs)),
           estimatedTime := showInt (\<lfloor>tEstimated d * 8\<rfloor> + 2) @ '' mins'',
           passengers := min (passengers t + \<lfloor>tPassengers d * 50 - 20\<rfloor>) 2000,
           eta := newDate (tNowEta d + (tEta d * 8 + 3) * 60000)\<rparr>"
    by (simp add: updateTrain_def Let_def statusOfDelay_def)
  with a c x show thesis by (rule that)
qed

lemma updateTrain_wellPlaced:
  assumes w: "wellPlaced t"
  shows "\<exists>t'. updateTrain fs d t = Inr t' \<and> wellPlaced t'
     \<and> positionInSegment t' =
         (if positionInSegment t + 0.05 \<ge> 1 then 0 else positionInSegment t + 0.05)"
proof -
  define ls where "ls = lineStations (line t)"
  define found where "found = findIndex (\<lambda>s. sname s = current t) ls"
  have n: "\<not> length ls < 2" using lineStations_ge2 [of "line t"] by (simp add: ls_def)
  from w have f: "0 \<le> found" "found + 1 < int (length ls)"
    and pos: "0 \<le> positionInSegment t" "positionInSegment t < 1"
    by (simp_all add: wellPlaced_def Let_def ls_def found_def)
  obtain p ci ni where a: "advance (int (length ls)) (positionInSegment t) found = (p, ci, ni)"
    by (cases "advance (int (length ls)) (positionInSegment t) found") auto
  from advance_inv [OF f pos a] have p: "0 \<le> p" "p < 1" and ci: "0 \<le> ci" and ni: "ni = ci + 1"
    and nb: "ni < int (length ls)"
    and pe: "p = (if positionInSegment t + 0.05 \<ge> 1 then 0 else positionInSegment t + 0.05)"
    by simp_all
  have gc: "getAt ls ci = Some (ls ! nat ci)" using ci ni nb by (simp add: getAt_in)
  have gn: "getAt ls ni = Some (ls ! nat ni)" using ci ni nb by (simp add: getAt_in)
  define t' where "t' = t\<lparr>
           current := sname (ls ! nat ci),
           nxt := sname (ls ! nat ni),
           currentStation := sname (ls ! nat ci),
           nextStation := sname (ls ! nat ni),
           positionInSegment := p,
           lat := slat (ls ! nat ci) + (slat (ls ! nat ni) - slat (ls ! nat ci)) * p,
           lon := slon (ls ! nat ci) + (slon (ls ! nat ni) - slon (ls ! nat ci)) * p,
           delay := delay t + (tDelay d * 0.5 * delayMultiplier fs),
           status := statusOfDelay (delay t + (tDelay d * 0.5 * delayMultiplier fs)),
           estimatedTime := showInt (\<lfloor>tEstimated d * 8\<rfloor> + 2) @ '' mins'',
           passengers := min (passengers t + \<lfloor>tPassengers d * 50 - 20\<rfloor>) 2000,
           eta := newDate (tNowEta d + (tEta d * 8 + 3) * 60000)\<rparr>"
  have u: "updateTrain fs d t = Inr t'"
    using n a gc gn
    by (simp add: updateTrain_def Let_def ls_def [symmetric] found_def [symmetric] t'_def
        statusOfDelay_def)
  have dl: "distinct (map sname ls)" by (simp add: ls_def distinct_lineStations)
  have fc: "findIndex (\<lambda>s. sname s = sname (ls ! nat ci)) ls = int (nat ci)"
    by (rule findIndex_nth_distinct [OF dl]) (use ci ni nb in linarith)
  have fn: "findIndex (\<lambda>s. sname s = sname (ls ! nat ni)) ls = int (nat ni)"
    by (rule findIndex_nth_distinct [OF dl]) (use ci ni nb in linarith)
  have "wellPlaced t'"
    using p ci ni nb fc fn
    by (simp add: wellPlaced_def Let_def t'_def ls_def [symmetric])
  moreover have "positionInSegment t' =
         (if positionInSegment t + 0.05 \<ge> 1 then 0 else positionInSegment t + 0.05)"
    using pe by (simp add: t'_def)
  ultimately show ?thesis using u by blast
qed

lemma mapE_Inr_iff: "mapE f xs = Inr ys \<longleftrightarrow> list_all2 (\<lambda>x y. f x = Inr y) xs ys"
proof (induction xs arbitrary: ys)
  case Nil
  then show ?case by auto
next
  case (Cons x xs)
  have "mapE f (x # xs) = Inr ys \<longleftrightarrow>
      (\<exists>y ys'. ys = y # ys' \<and> f x = Inr y \<and> mapE f xs = Inr ys')"
    by (auto split: sum.splits)
  then show ?case by (simp add: Cons.IH list_all2_Cons1)
qed

lemma mapE_total:
  assumes "\<And>x. x \<in> set xs \<Longrightarrow> \<exists>y. f x = Inr y"
  shows "\<exists>ys. mapE f xs = Inr ys"
  using assms
proof (induction xs)
  case Nil
  then show ?case by simp
next
  case (Cons x xs)
  from Cons.prems obtain y where y: "f x = Inr y" by auto
  from Cons have "\<exists>ys. mapE f xs = Inr ys" by simp
  then obtain ys where "mapE f xs = Inr ys" ..
  with y show ?case by simp
qed

lemma updateTrainPositions_Inr_iff:
  "updateTrainPositions fs env ts = Inr ts' \<longleftrightarrow>
     length ts' = length ts \<and> (\<forall>i < length ts. updateTrain fs (env i) (ts ! i) = Inr (ts' ! i))"
  by (auto simp: updateTrainPositions_def mapE_Inr_iff list_all2_conv_all_nth nth_enumerate_eq)

lemma updateTrainPositions_single:
  "updateTrain fs (env 0) t = Inr t' \<Longrightarrow> updateTrainPositions fs env [t] = Inr [t']"
  by (simp add: updateTrainPositions_def)

lemma updateTrainPositions_total:
  assumes "\<And>t. t \<in> set ts \<Longrightarrow> wellPlaced t"
  shows "\<exists>ts'. updateTrainPositions fs env ts = Inr ts'"
  unfolding updateTrainPositions_def
proof (rule mapE_total)
  fix x assume "x \<in> set (enumerate 0 ts)"
  moreover obtain i t where x: "x = (i, t)" by (cases x)
  ultimately have t: "t \<in> set ts" by (auto simp: in_set_enumerate_eq)
  from updateTrain_wellPlaced [OF assms [OF t], of fs "env i"]
  show "\<exists>y. (case x of (i, train) \<Rightarrow> updateTrain fs (env i) train) = Inr y"
    by (auto simp: x)
qed

subsection \<open>Initialization and the invariant of reachable states\<close>

lemma foldE_invariant:
  assumes "foldE f xs s = Inr r" and "P s"
    and "\<And>x a b. x \<in> set xs \<Longrightarrow> P a \<Longrightarrow> f x a = Inr b \<Longrightarrow> P b"
  shows "P r"
  using assms
proof (induction xs arbitrary: s)
  case Nil
  then show ?case by simp
next
  case (Cons x xs)
  from Cons.prems(1) obtain s' where s': "f x s = Inr s'" and r: "foldE f xs s' = Inr r"
    by (auto split: sum.splits)
  have "P s'" using Cons.prems(3) [of x s s'] Cons.prems(2) s' by simp
  then show ?case using Cons.prems(3) by (intro Cons.IH [OF r]) auto
qed

lemma foldE_total:
  assumes "\<And>x a. x \<in> set xs \<Longrightarrow> \<exists>b. f x a = Inr b"
  shows "\<exists>r. foldE f xs s = Inr r"
  using assms
proof (induction xs arbitrary: s)
  case Nil
  then show ?case by simp
next
  case (Cons x xs)
  from Cons.prems [of x s] obtain s' where s': "f x s = Inr s'" by auto
  from Cons.IH [of s'] Cons.prems obtain r where "foldE f xs s' = Inr r" by auto
  with s' show ?case by simp
qed

lemma initTrain_ok:
  assumes v: "validInit d"
  shows "\<exists>t. initTrain l li i d acc = Inr (acc @ [t]) \<and> trainInv t \<and> line t = l"
proof -
  define ls where "ls = lineStations l"
  define x where "x = iNow d / 60000 + real li * 20 + real i * 15"
  define progress where "progress = jsRem x 60 / 60"
  define sp where "sp = progress * (real (length ls) - 1)"
  define ci where "ci = \<lfloor>sp\<rfloor>"
  have n: "2 \<le> length ls" by (simp add: ls_def lineStations_ge2)
  have "0 \<le> x" using v by (simp add: x_def validInit_def)
  from jsRem_range [OF this] have pr: "0 \<le> progress" "progress < 1"
    by (simp_all add: progress_def)
  have sp0: "0 \<le> sp" using pr n by (simp add: sp_def)
  have "progress * (real (length ls) - 1) < 1 * (real (length ls) - 1)"
    by (rule mult_strict_right_mono) (use pr n in auto)
  then have sp1: "sp < real (length ls) - 1" by (simp add: sp_def)
  have ci0: "0 \<le> ci" using sp0 by (simp add: ci_def)
  have "sp < of_int (int (length ls) - 1)" using sp1 by simp
  then have ci1: "ci < int (length ls) - 1" unfolding ci_def by (simp only: floor_less_iff)
  have mn: "min (ci + 1) (int (length ls) - 1) = ci + 1" using ci1 by simp
  have pos: "0 \<le> sp - of_int ci" "sp - of_int ci < 1" unfolding ci_def by linarith+
  have gc: "getAt ls ci = Some (ls ! nat ci)" using ci0 ci1 by (simp add: getAt_in)
  have gn: "getAt ls (ci + 1) = Some (ls ! nat (ci + 1))" using ci0 ci1 by (simp add: getAt_in)
  define t where "t = \<lparr>
      trainId = take 1 (lineName l) @ padStart0 3 (showNat (i + 1)),
      name = lineName l @ '' Local'',
      status = (if iDelay d * 3 > 2 then Delayed
                else if iDelay d * 3 > 5 then Critical else OnTime),
      route = sname (ls ! 0) @ '' - '' @ sname (ls ! (length ls - 1)),
      line = l,
      current = sname (ls ! nat ci),
      nxt = sname (ls ! nat (ci + 1)),
      currentStation = sname (ls ! nat ci),
      nextStation = sname (ls ! nat (ci + 1)),
      estimatedTime = showInt (\<lfloor>iEstimated d * 8\<rfloor> + 2) @ '' mins'',
      eta = newDate (iNowEta d + (iEta d * 8 + 3) * 60000),
      delay = iDelay d * 3,
      passengers = \<lfloor>iPassengers d * 600 + 200\<rfloor>,
      speed = 45 + iSpeed d * 20,
      currentSpeed = 45 + iCurrentSpeed d * 20,
      lat = slat (ls ! nat ci) + (slat (ls ! nat (ci + 1)) - slat (ls ! nat ci)) * (sp - of_int ci),
      lon = slon (ls ! nat ci) + (slon (ls ! nat (ci + 1)) - slon (ls ! nat ci)) * (sp - of_int ci),
      positionInSegment = sp - of_int ci,
      startStation = sname (ls ! 0),
      direction = (if i mod 2 = 0 then UP else DOWN),
      startTime = newDate (iNowStart d - iStart d * 3600000),
      distanceToNext = iDistance d * 2 + 0.5\<rparr>"
  have e: "initTrain l li i d acc = Inr (acc @ [t])"
    using n gc gn mn
    by (simp add: initTrain_def Let_def ls_def [symmetric] x_def [symmetric]
        progress_def [symmetric] sp_def [symmetric] ci_def [symmetric] t_def)
  have dl: "distinct (map sname ls)" by (simp add: ls_def distinct_lineStations)
  have fc: "findIndex (\<lambda>s. sname s = sname (ls ! nat ci)) ls = int (nat ci)"
    by (rule findIndex_nth_distinct [OF dl]) (use ci0 ci1 in linarith)
  have fn: "findIndex (\<lambda>s. sname s = sname (ls ! nat (ci + 1))) ls = int (nat (ci + 1))"
    by (rule findIndex_nth_distinct [OF dl]) (use ci0 ci1 in linarith)
  have "wellPlaced t"
    using pos ci0 ci1 fc fn by (simp add: wellPlaced_def Let_def t_def ls_def [symmetric])
  moreover have "0 \<le> delay t" using v by (simp add: t_def validInit_def unitDraw_def)
  moreover have "line t = l" by (simp add: t_def)
  ultimately show ?thesis using e by (auto simp: trainInv_def)
qed

lemma initLine_step:
  assumes v: "\<And>li i. validInit (ienv li i)"
  shows "\<exists>b. initLine ienv (li, l) a = Inr b"
    and "list_all trainInv a \<Longrightarrow> initLine ienv (li, l) a = Inr b \<Longrightarrow> list_all trainInv b"
proof -
  show "\<exists>b. initLine ienv (li, l) a = Inr b"
    unfolding initLine_def prod.case Let_def
  proof (rule foldE_total)
    fix i c
    have "validInit (ienv li i)" by (rule v)
    from initTrain_ok [OF this, of l li i c]
    show "\<exists>e. initTrain l li i (ienv li i) c = Inr e" by blast
  qed
  assume a: "list_all trainInv a" and b: "initLine ienv (li, l) a = Inr b"
  from b have "foldE (\<lambda>i. initTrain l li i (ienv li i))
      [0..<(if l = Western then 15 else if l = CentralMain then 15 else 10)] a = Inr b"
    by (simp add: initLine_def Let_def)
  then show "list_all trainInv b"
  proof (rule foldE_invariant)
    show "list_all trainInv a" by (rule a)
  next
    fix i c e
    assume "i \<in> set [0..<(if l = Western then 15 else if l = CentralMain then 15 else 10)]"
      and c: "list_all trainInv c" and e: "initTrain l li i (ienv li i) c = Inr e"
    have "validInit (ienv li i)" by (rule v)
    from initTrain_ok [OF this, of l li i c] e obtain t where "e = c @ [t]" "trainInv t" by auto
    with c show "list_all trainInv e" by simp
  qed
qed

lemma initializeTrains_total:
  assumes v: "\<And>li i. validInit (ienv li i)"
  shows "\<exists>ts. initializeTrains ienv = Inr ts"
  unfolding initializeTrains_def
proof (rule foldE_total)
  fix x :: "nat \<times> lineT" and a
  obtain li l where "x = (li, l)" by (cases x)
  then show "\<exists>b. initLine ienv x a = Inr b" using initLine_step(1) [OF v] by simp
qed

lemma initializeTrains_inv:
  assumes v: "\<And>li i. validInit (ienv li i)" and e: "initializeTrains ienv = Inr ts"
  shows "list_all trainInv ts"
proof -
  from e have "foldE (initLine ienv) (enumerate 0 [Western, CentralMain, TransHarbour]) [] = Inr ts"
    by (simp add: initializeTrains_def)
  then show ?thesis
  proof (rule foldE_invariant)
    show "list_all trainInv []" by simp
  next
    fix x :: "nat \<times> lineT" and a b
    assume "x \<in> set (enumerate 0 [Western, CentralMain, TransHarbour])"
      and a: "list_all trainInv a" and b: "initLine ienv x a = Inr b"
    obtain li l where "x = (li, l)" by (cases x)
    then show "list_all trainInv b" using initLine_step(2) [OF v a] b by simp
  qed
qed

lemma delayMultiplier_eq:
  "delayMultiplier fs = 1 + 0.5 * rushHour fs + 0.3 * weather fs
     + 0.4 * junctionCongestion fs + 0.6 * equipmentReliability fs"
  by (simp add: delayMultiplier_def Let_def)

lemma delayMultiplier_ge1:
  assumes "factorsInRange fs"
  shows "1 \<le> delayMultiplier fs"
proof -
  have a: "getFactor fs k \<in> {0, 1, 2, 3, 4, 5}" for k
    using assms by (simp add: factorsInRange_iff)
  have "0 \<le> rushHour fs" using a [of KRushHour] by auto
  moreover have "0 \<le> weather fs" using a [of KWeather] by auto
  moreover have "0 \<le> junctionCongestion fs" using a [of KJunctionCongestion] by auto
  moreover have "0 \<le> equipmentReliability fs" using a [of KEquipmentReliability] by auto
  ultimately show ?thesis by (simp add: delayMultiplier_eq)
qed

lemma updateTrain_delay_mono:
  assumes u: "updateTrain fs d t = Inr t'" and f: "factorsInRange fs" and r: "unitDraw (tDelay d)"
  shows "delay t \<le> delay t'"
proof -
  from u have "delay t' = delay t + tDelay d * 0.5 * delayMultiplier fs"
    by (rule updateTrain_InrE) simp
  moreover have "0 \<le> tDelay d * 0.5 * delayMultiplier fs"
    using delayMultiplier_ge1 [OF f] r by (simp add: unitDraw_def)
  ultimately show ?thesis by simp
qed

lemma updateTrain_trainInv:
  assumes i: "trainInv t" and f: "factorsInRange fs" and r: "unitDraw (tDelay d)"
  shows "\<exists>t'. updateTrain fs d t = Inr t' \<and> trainInv t'"
proof -
  from i have w: "wellPlaced t" and dl: "0 \<le> delay t" by (simp_all add: trainInv_def)
  from updateTrain_wellPlaced [OF w, of fs d] obtain t'
    where u: "updateTrain fs d t = Inr t'" and w': "wellPlaced t'" by blast
  from updateTrain_delay_mono [OF u f r] dl have "0 \<le> delay t'" by simp
  with u w' show ?thesis by (auto simp: trainInv_def)
qed

lemma quickActionTrain_trainInv: "trainInv t \<Longrightarrow> trainInv (quickActionTrain a tid t)"
  by (simp add: trainInv_def wellPlaced_def quickActionTrain_def)

lemma reachable_stateInv: "reachable st \<Longrightarrow> stateInv st"
proof (induction rule: reachable.induct)
  case r_initial
  show ?case
    by (simp add: stateInv_def initialState_def factorsInRange_initial initialLog_def)
next
  case (r_start st ienv ts)
  from initializeTrains_inv [OF r_start.hyps(2) r_start.hyps(3)] r_start.IH
  show ?case by (simp add: stateInv_def)
next
  case (r_stop st)
  then show ?case by (simp add: stateInv_def)
next
  case (r_tick st fs env ts)
  from r_tick.IH have ti: "list_all trainInv (trains st)" by (simp add: stateInv_def)
  note f = r_tick.hyps(2)
  from r_tick.hyps(4) have len: "length ts = length (trains st)"
    and st: "\<And>i. i < length (trains st) \<Longrightarrow>
       updateTrain fs (env i) (trains st ! i) = Inr (ts ! i)"
    by (simp_all add: updateTrainPositions_Inr_iff)
  have "trainInv (ts ! i)" if i: "i < length ts" for i
  proof -
    from i len ti have "trainInv (trains st ! i)" by (simp add: list_all_length)
    moreover have "unitDraw (tDelay (env i))" using r_tick.hyps(3) [of i] by (simp add: validTick_def)
    ultimately obtain t' where "updateTrain fs (env i) (trains st ! i) = Inr t'"
      and "trainInv t'" using updateTrain_trainInv [OF _ f] by blast
    with st [of i] i len show ?thesis by simp
  qed
  then have "list_all trainInv ts" by (simp add: list_all_length)
  with r_tick.IH show ?case by (simp add: stateInv_def)
next
  case (r_factor st k)
  then show ?case by (simp add: stateInv_def factorsInRange_add)
next
  case (r_action st action tid timestamp)
  then show ?case
    by (simp add: stateInv_def performQuickAction_def length_addAiDecisionLog list_all_iff
        quickActionTrain_trainInv)
next
  case (r_log st timestamp message)
  then show ?case by (simp add: stateInv_def length_addAiDecisionLog)
qed

subsection \<open>Evaluation at the concrete inputs\<close>

lemma sample_id: "padStart0 3 (showNat (Suc 0)) = ''001''"
  by code_simp

lemma sample_mins: "showInt 2 = ''2''"
  by code_simp

lemma upper_hold: "toUpperCase ''hold'' = ''HOLD''"
  by code_simp

lemma validInit_sample: "validInit sampleInitDraws"
  by (simp add: validInit_def sampleInitDraws_def unitDraw_def)

lemma validTick_sample: "validTick sampleTickDraws"
  by (simp add: validTick_def sampleTickDraws_def unitDraw_def)

lemma initTrain_sample: "initTrain Western 0 0 sampleInitDraws [] = Inr [sampleW001]"
  by (simp add: initTrain_def sampleInitDraws_def sampleW001_def Let_def lineStations_def
      stationData_def jsRem_def trunc_def getAt_def sample_id sample_mins newDate_def)

lemma updateTrain_sample:
  "updateTrain initialFactors sampleTickDraws sampleW001 = Inr sampleW001Next"
  by (simp add: updateTrain_def sampleTickDraws_def sampleW001_def sampleW001Next_def Let_def
      lineStations_def stationData_def advance_def getAt_def delayMultiplier_def
      initialFactors_def sample_mins newDate_def trunc_def)

lemma updateTrain_sample_rush:
  "updateTrain rushFactors sampleTickDraws sampleW001 = Inr (sampleW001Next\<lparr>delay := 7 / 8\<rparr>)"
  by (simp add: updateTrain_def sampleTickDraws_def sampleW001_def sampleW001Next_def Let_def
      lineStations_def stationData_def advance_def getAt_def delayMultiplier_def
      initialFactors_def rushFactors_def sample_mins newDate_def trunc_def)

lemma findIndex_sampleBeforeTerminus:
  "findIndex (\<lambda>s. sname s = current sampleBeforeTerminus)
     (lineStations (line sampleBeforeTerminus)) = 25"
  by (simp add: sampleBeforeTerminus_def sampleW001_def lineStations_def stationData_def)

lemma tickTimes_sample:
  "map_sum id passengers (tickTimes initialFactors sampleTickDraws 11 sampleW001) = Inr (- 20)"
  by (simp add: eval_nat_numeral updateTrain_def sampleTickDraws_def sampleW001_def Let_def
      lineStations_def stationData_def advance_def getAt_def delayMultiplier_def
      initialFactors_def sample_mins newDate_def trunc_def)

lemma initTrain_extends: "initTrain l li i d a = Inr b \<Longrightarrow> \<exists>ys. b = a @ ys"
  by (auto simp: initTrain_def Let_def split: if_splits option.splits)

lemma foldE_initTrain_first:
  assumes "foldE (\<lambda>i. initTrain l li i (ienv li i)) is a = Inr b" and "\<exists>r. a = t0 # r"
  shows "\<exists>r. b = t0 # r"
  using assms(1)
proof (rule foldE_invariant)
  show "\<exists>r. a = t0 # r" by (rule assms(2))
next
  fix i c e
  assume "i \<in> set is" and c: "\<exists>r. c = t0 # r" and e: "initTrain l li i (ienv li i) c = Inr e"
  from initTrain_extends [OF e] obtain ys where "e = c @ ys" ..
  with c show "\<exists>r. e = t0 # r" by auto
qed

lemma initLine_first:
  assumes "initLine ienv (li, l) a = Inr b" and "\<exists>r. a = t0 # r"
  shows "\<exists>r. b = t0 # r"
proof -
  from assms(1) have "foldE (\<lambda>i. initTrain l li i (ienv li i))
      [0..<(if l = Western then 15 else if l = CentralMain then 15 else 10)] a = Inr b"
    by (simp add: initLine_def Let_def)
  then show ?thesis using assms(2) by (rule foldE_initTrain_first)
qed

lemma initializeTrains_first:
  assumes e: "initializeTrains ienv = Inr ts"
    and t0: "initTrain Western 0 0 (ienv 0 0) [] = Inr [t0]"
  shows "\<exists>r. ts = t0 # r"
proof -
  define rest where "rest = enumerate (Suc 0) [CentralMain, TransHarbour]"
  have en: "enumerate 0 [Western, CentralMain, TransHarbour] = (0, Western) # rest"
    by (simp add: rest_def)
  have u: "[0..<15] = 0 # [1..<15]" by (simp add: upt_conv_Cons)
  from e have "foldE (initLine ienv) ((0, Western) # rest) [] = Inr ts"
    by (simp only: initializeTrains_def en)
  then obtain a where a: "initLine ienv (0, Western) [] = Inr a"
    and r: "foldE (initLine ienv) rest a = Inr ts"
    by (auto split: sum.splits)
  from a t0 have "foldE (\<lambda>i. initTrain Western 0 i (ienv 0 i)) [1..<15] [t0] = Inr a"
    by (simp add: initLine_def u)
  then have "\<exists>r. a = t0 # r" by (rule foldE_initTrain_first) simp
  with r show ?thesis
  proof (rule foldE_invariant)
    fix x :: "nat \<times> lineT" and c b
    assume "x \<in> set rest"
      and c: "\<exists>r. c = t0 # r" and b: "initLine ienv x c = Inr b"
    obtain li l where "x = (li, l)" by (cases x)
    with b c show "\<exists>r. b = t0 # r" by (auto intro: initLine_first)
  qed
qed

text \<open>The registry right after a start under the sample draws: its first train is
  \<open>sampleW001\<close>, and the state is reachable.\<close>

lemma sample_start:
  obtains ts where "initializeTrains (\<lambda>_ _. sampleInitDraws) = Inr (sampleW001 # ts)"
    and "reachable (initialState\<lparr>trains := sampleW001 # ts\<rparr>)"
proof -
  obtain ts0 where e: "initializeTrains (\<lambda>_ _. sampleInitDraws) = Inr ts0"
    using initializeTrains_total [of "\<lambda>_ _. sampleInitDraws"] validInit_sample by auto
  from initializeTrains_first [OF e] initTrain_sample obtain ts where ts: "ts0 = sampleW001 # ts"
    by auto
  have "reachable (initialState\<lparr>trains := ts0\<rparr>)"
    by (rule r_start [OF r_initial _ e]) (rule validInit_sample)
  with e ts show thesis by (auto intro: that)
qed

subsection \<open>Claims about the position tick\<close>

text \<open>
  C3. After a position tick, the status of every train of the new registry is the
  function of its new delay: Critical exactly when the delay exceeds 5, Delayed exactly
  when it exceeds 2 and not 5, On Time exactly when it is at most 2.
\<close>

theorem tick_status_from_delay:
  assumes "updateTrainPositions fs env ts = Inr ts'" and "i < length ts'"
  shows "status (ts' ! i) = statusOfDelay (delay (ts' ! i))
     \<and> (status (ts' ! i) = Critical \<longleftrightarrow> delay (ts' ! i) > 5)
     \<and> (status (ts' ! i) = Delayed \<longleftrightarrow> 2 < delay (ts' ! i) \<and> delay (ts' ! i) \<le> 5)
     \<and> (status (ts' ! i) = OnTime \<longleftrightarrow> delay (ts' ! i) \<le> 2)"
proof -
  from assms have "updateTrain fs (env i) (ts ! i) = Inr (ts' ! i)"
    by (simp add: updateTrainPositions_Inr_iff)
  then have "status (ts' ! i) = statusOfDelay (delay (ts' ! i))"
    by (rule updateTrain_InrE) simp
  then show ?thesis by (simp add: statusOfDelay_def)
qed

text \<open>C3 at the registry \<open>[sampleW001]\<close>: the delay after the tick is a quarter of a minute
  and the status is On Time.\<close>

theorem tick_status_from_delay_witness:
  "updateTrainPositions initialFactors (\<lambda>_. sampleTickDraws) [sampleW001] = Inr [sampleW001Next]
   \<and> (0::nat) < length [sampleW001Next]
   \<and> status ([sampleW001Next] ! 0) = OnTime \<and> delay ([sampleW001Next] ! 0) = 1 / 4
   \<and> (status ([sampleW001Next] ! 0) = OnTime) = (delay ([sampleW001Next] ! 0) \<le> 2)"
proof -
  have u: "updateTrainPositions initialFactors (\<lambda>_. sampleTickDraws) [sampleW001]
      = Inr [sampleW001Next]"
    by (rule updateTrainPositions_single) (rule updateTrain_sample)
  have l: "(0::nat) < length [sampleW001Next]" by simp
  from tick_status_from_delay [OF u l] u show ?thesis
    by (simp add: sampleW001Next_def sampleW001_def)
qed

text \<open>
  C4. The delay multiplier that the tick builds from the factor levels equals
  1 + 0.5 rushHour + 0.3 weather + 0.4 junctionCongestion + 0.6 equipmentReliability;
  it is 3.5 with rush hour at 5 and the other factors at 0; and it is the multiplier the
  tick uses: the new delay of an updated train is the old one plus the delay draw times
  0.5 times this value.
\<close>

theorem delay_multiplier_formula:
  "delayMultiplier fs = 1 + 0.5 * rushHour fs + 0.3 * weather fs
       + 0.4 * junctionCongestion fs + 0.6 * equipmentReliability fs
   \<and> delayMultiplier rushFactors = 3.5
   \<and> (updateTrain fs d t = Inr t' \<longrightarrow>
        delay t' = delay t + tDelay d * 0.5 * (1 + 0.5 * rushHour fs + 0.3 * weather fs
          + 0.4 * junctionCongestion fs + 0.6 * equipmentReliability fs))"
proof -
  have "delay t' = delay t + tDelay d * 0.5 * delayMultiplier fs"
    if "updateTrain fs d t = Inr t'"
    using that by (rule updateTrain_InrE) simp
  moreover have "delayMultiplier rushFactors = 3.5"
    by (simp add: delayMultiplier_eq rushFactors_def initialFactors_def)
  ultimately show ?thesis by (simp add: delayMultiplier_eq)
qed

text \<open>C4 at \<open>sampleW001\<close> with rush hour at 5: the multiplier is 3.5 and the delay draw of one
  half adds 0.875 minutes.\<close>

theorem delay_multiplier_formula_witness:
  "updateTrain rushFactors sampleTickDraws sampleW001 = Inr (sampleW001Next\<lparr>delay := 7 / 8\<rparr>)
   \<and> delayMultiplier rushFactors = 7 / 2
   \<and> delay (sampleW001Next\<lparr>delay := 7 / 8\<rparr>) = delay sampleW001 + tDelay sampleTickDraws * 0.5 * (7 / 2)"
  using delay_multiplier_formula [of rushFactors sampleTickDraws sampleW001
      "sampleW001Next\<lparr>delay := 7 / 8\<rparr>"] updateTrain_sample_rush
  by (simp add: rushFactors_def initialFactors_def)

text \<open>
  C6. When the segment progress of a train completes in a tick and the index it arrives
  at is the last index of its line (or beyond), the tick succeeds and puts the train at
  index 0 with next index 1 and progress 0: its current and next station are the first
  and the second station of the line.
\<close>

theorem terminal_wraparound:
  assumes "positionInSegment t + 0.05 \<ge> 1"
    and "findIndex (\<lambda>s. sname s = current t) (lineStations (line t)) + 1
           \<ge> int (length (lineStations (line t))) - 1"
  shows "advance (int (length (lineStations (line t)))) (positionInSegment t)
           (findIndex (\<lambda>s. sname s = current t) (lineStations (line t))) = (0, 0, 1)
     \<and> (\<exists>t'. updateTrain fs d t = Inr t'
          \<and> current t' = sname (lineStations (line t) ! 0)
          \<and> nxt t' = sname (lineStations (line t) ! 1)
          \<and> positionInSegment t' = 0
          \<and> line t' = line t
          \<and> findIndex (\<lambda>s. sname s = current t') (lineStations (line t)) = 0
          \<and> findIndex (\<lambda>s. sname s = nxt t') (lineStations (line t)) = 1)"
proof -
  define ls where "ls = lineStations (line t)"
  have n: "2 \<le> length ls" by (simp add: ls_def lineStations_ge2)
  have a: "advance (int (length ls)) (positionInSegment t)
      (findIndex (\<lambda>s. sname s = current t) ls) = (0, 0, 1)"
    using assms by (simp add: advance_def Let_def ls_def)
  have g0: "getAt ls 0 = Some (ls ! 0)" using n by (auto simp: getAt_def)
  have g1: "getAt ls 1 = Some (ls ! 1)" using n by (auto simp: getAt_def)
  have dl: "distinct (map sname ls)" by (simp add: ls_def distinct_lineStations)
  have f0: "findIndex (\<lambda>s. sname s = sname (ls ! 0)) ls = int 0"
    by (rule findIndex_nth_distinct [OF dl]) (use n in linarith)
  have f1: "findIndex (\<lambda>s. sname s = sname (ls ! 1)) ls = int 1"
    by (rule findIndex_nth_distinct [OF dl]) (use n in simp)
  have "\<not> length ls < 2" using n by simp
  then obtain t' where u: "updateTrain fs d t = Inr t'" and c: "current t' = sname (ls ! 0)"
    and x: "nxt t' = sname (ls ! 1)" and p: "positionInSegment t' = 0" and l: "line t' = line t"
    using a g0 g1 by (simp add: updateTrain_def Let_def ls_def [symmetric])
  show ?thesis
    using a u c x p l f0 f1 by (simp add: ls_def [symmetric])
qed

text \<open>C6 at a Western train at Nallasopara (index 25 of 27 stations) with progress 0.96: the
  tick puts it at Churchgate with next station Marine Lines.\<close>

theorem terminal_wraparound_witness:
  "positionInSegment sampleBeforeTerminus + 0.05 \<ge> 1
   \<and> findIndex (\<lambda>s. sname s = current sampleBeforeTerminus)
        (lineStations (line sampleBeforeTerminus)) + 1 = 26
   \<and> int (length (lineStations (line sampleBeforeTerminus))) - 1 = 26
   \<and> map_sum id (\<lambda>t'. (current t', nxt t', positionInSegment t'))
        (updateTrain initialFactors sampleTickDraws sampleBeforeTerminus)
      = Inr (''Churchgate'', ''Marine Lines'', 0)"
proof -
  have p: "positionInSegment sampleBeforeTerminus + 0.05 \<ge> 1"
    by (simp add: sampleBeforeTerminus_def)
  have l: "line sampleBeforeTerminus = Western"
    by (simp add: sampleBeforeTerminus_def sampleW001_def)
  have n: "int (length (lineStations (line sampleBeforeTerminus))) - 1 = 26"
    by (simp add: l length_lineStations)
  have f: "findIndex (\<lambda>s. sname s = current sampleBeforeTerminus)
        (lineStations (line sampleBeforeTerminus)) + 1
       \<ge> int (length (lineStations (line sampleBeforeTerminus))) - 1"
    by (simp add: n findIndex_sampleBeforeTerminus)
  have s: "sname (lineStations Western ! 0) = ''Churchgate''"
    "sname (lineStations Western ! Suc 0) = ''Marine Lines''"
    by (simp_all add: lineStations_def stationData_def)
  from terminal_wraparound [OF p f, of initialFactors sampleTickDraws]
  obtain t' where "updateTrain initialFactors sampleTickDraws sampleBeforeTerminus = Inr t'"
    and "current t' = ''Churchgate''" and "nxt t' = ''Marine Lines''"
    and "positionInSegment t' = 0"
    by (auto simp: l s)
  with p n show ?thesis by (simp add: findIndex_sampleBeforeTerminus)
qed

subsection \<open>Claims about reachable states\<close>

lemma reachable_tick_total:
  assumes "reachable st"
  shows "\<exists>ts'. updateTrainPositions fs env (trains st) = Inr ts'"
proof -
  from reachable_stateInv [OF assms] have "list_all trainInv (trains st)"
    by (simp add: stateInv_def)
  then show ?thesis
    by (intro updateTrainPositions_total) (simp add: list_all_iff trainInv_def)
qed

text \<open>
  C5. In every state reachable from the initial one (by starts, stops, position ticks,
  factor increments, quick actions and log appends), every train has its segment
  progress in \<open>[0, 1)\<close> and the indices of its current and next station within the bounds
  of its line's station list and different (the next index is the current one plus 1);
  and a position tick on such a state raises no error, whatever the draws: every station
  lookup of the tick is in range.
\<close>

theorem reachable_well_placed:
  assumes "reachable st"
  shows "list_all wellPlaced (trains st)
     \<and> (\<exists>ts'. updateTrainPositions fs env (trains st) = Inr ts' \<and> list_all wellPlaced ts')"
proof -
  from reachable_stateInv [OF assms] have "list_all trainInv (trains st)"
    by (simp add: stateInv_def)
  then have w: "list_all wellPlaced (trains st)"
    by (simp add: list_all_iff trainInv_def)
  then have "\<exists>ts'. updateTrainPositions fs env (trains st) = Inr ts'"
    by (intro updateTrainPositions_total) (simp add: list_all_iff)
  then obtain ts' where u: "updateTrainPositions fs env (trains st) = Inr ts'" ..
  then have len: "length ts' = length (trains st)"
    and st: "\<And>i. i < length (trains st) \<Longrightarrow>
       updateTrain fs (env i) (trains st ! i) = Inr (ts' ! i)"
    by (simp_all add: updateTrainPositions_Inr_iff)
  have "wellPlaced (ts' ! i)" if i: "i < length ts'" for i
  proof -
    from i len w have "wellPlaced (trains st ! i)" by (simp add: list_all_length)
    from updateTrain_wellPlaced [OF this, of fs "env i"] st [of i] i len
    show ?thesis by auto
  qed
  then have "list_all wellPlaced ts'" by (simp add: list_all_length)
  with w u show ?thesis by blast
qed

text \<open>C5 at the state right after a start under the sample draws, and at the registry after
  one tick from it.\<close>

theorem reachable_well_placed_witness:
  "(case initializeTrains (\<lambda>_ _. sampleInitDraws) of
      Inl _ \<Rightarrow> False
    | Inr ts \<Rightarrow>
        reachable (initialState\<lparr>trains := ts\<rparr>) \<and> hd ts = sampleW001
        \<and> list_all wellPlaced ts \<and> wellPlaced sampleW001
        \<and> (case updateTrainPositions initialFactors (\<lambda>_. sampleTickDraws) ts of
              Inl _ \<Rightarrow> False
            | Inr ts' \<Rightarrow> list_all wellPlaced ts' \<and> hd ts' = sampleW001Next))"
proof -
  obtain ts where e: "initializeTrains (\<lambda>_ _. sampleInitDraws) = Inr (sampleW001 # ts)"
    and r: "reachable (initialState\<lparr>trains := sampleW001 # ts\<rparr>)"
    by (rule sample_start)
  from reachable_well_placed [OF r, of initialFactors "\<lambda>_. sampleTickDraws"]
  obtain ts' where w: "list_all wellPlaced (sampleW001 # ts)"
    and u: "updateTrainPositions initialFactors (\<lambda>_. sampleTickDraws) (sampleW001 # ts) = Inr ts'"
    and w': "list_all wellPlaced ts'"
    by auto
  from u have "length ts' = Suc (length ts)"
    and "updateTrain initialFactors sampleTickDraws sampleW001 = Inr (ts' ! 0)"
    by (auto simp: updateTrainPositions_Inr_iff)
  then have "hd ts' = sampleW001Next"
    by (cases ts') (simp_all add: updateTrain_sample)
  with e r w u w' show ?thesis by simp
qed

text \<open>
  C9 (as the code has it). In every reachable state, a position tick with valid draws
  that reads any factor levels in range (the levels captured when the simulation was
  started, all zero right after the mount, or any other) moves the segment progress of
  each train to the old progress plus 0.05 when that is below 1 and to 0 otherwise (the
  train has arrived at a station); it adds to the delay the delay draw times 0.5 times
  the multiplier of the levels it reads, which is at least 1, so no delay decreases, and
  every delay is at least 0 before and after the tick.
\<close>

theorem tick_progress_and_delay:
  assumes "reachable st" and "factorsInRange fs" and "\<And>j. validTick (env j)"
    and "updateTrainPositions fs env (trains st) = Inr ts'"
    and "i < length (trains st)"
  shows "positionInSegment (ts' ! i) =
        (if positionInSegment (trains st ! i) + 0.05 < 1
         then positionInSegment (trains st ! i) + 0.05 else 0)
     \<and> delay (ts' ! i) = delay (trains st ! i) + tDelay (env i) * 0.5 * delayMultiplier fs
     \<and> 1 \<le> delayMultiplier fs
     \<and> delay (trains st ! i) \<le> delay (ts' ! i)
     \<and> 0 \<le> delay (trains st ! i) \<and> 0 \<le> delay (ts' ! i)"
proof -
  from reachable_stateInv [OF assms(1)] have ti: "list_all trainInv (trains st)"
    by (simp add: stateInv_def)
  note f = assms(2)
  from ti assms(5) have "trainInv (trains st ! i)" by (simp add: list_all_length)
  then have w: "wellPlaced (trains st ! i)" and d0: "0 \<le> delay (trains st ! i)"
    by (simp_all add: trainInv_def)
  from assms(4,5) have u: "updateTrain fs (env i) (trains st ! i) = Inr (ts' ! i)"
    by (simp add: updateTrainPositions_Inr_iff)
  have r: "unitDraw (tDelay (env i))" using assms(3) [of i] by (simp add: validTick_def)
  from updateTrain_wellPlaced [OF w, of fs "env i"] u
  have p: "positionInSegment (ts' ! i) =
        (if positionInSegment (trains st ! i) + 0.05 \<ge> 1 then 0
         else positionInSegment (trains st ! i) + 0.05)" by auto
  from u have e: "delay (ts' ! i) = delay (trains st ! i)
          + tDelay (env i) * 0.5 * delayMultiplier fs"
    by (rule updateTrain_InrE) simp
  from updateTrain_delay_mono [OF u f r] have m: "delay (trains st ! i) \<le> delay (ts' ! i)" .
  from p e m d0 delayMultiplier_ge1 [OF f] show ?thesis by auto
qed

text \<open>C9 at the state right after a start under the sample draws, with the tick reading
  the all-zero levels: the first train goes from progress 0.975 to 0 and from delay 0 to
  0.25.\<close>

theorem tick_progress_and_delay_witness:
  "(case initializeTrains (\<lambda>_ _. sampleInitDraws) of
      Inl _ \<Rightarrow> False
    | Inr ts \<Rightarrow>
        reachable (initialState\<lparr>trains := ts\<rparr>) \<and> factorsInRange initialFactors
        \<and> validTick sampleTickDraws \<and> 0 < length ts
        \<and> (case updateTrainPositions initialFactors (\<lambda>_. sampleTickDraws) ts of
              Inl _ \<Rightarrow> False
            | Inr ts' \<Rightarrow>
                positionInSegment (ts ! 0) = 39 / 40 \<and> positionInSegment (ts' ! 0) = 0
                \<and> delay (ts ! 0) = 0 \<and> delay (ts' ! 0) = 1 / 4
                \<and> delay (ts ! 0) \<le> delay (ts' ! 0)))"
proof -
  obtain ts where e: "initializeTrains (\<lambda>_ _. sampleInitDraws) = Inr (sampleW001 # ts)"
    and r: "reachable (initialState\<lparr>trains := sampleW001 # ts\<rparr>)"
    by (rule sample_start)
  define st where "st = initialState\<lparr>trains := sampleW001 # ts\<rparr>"
  have tr: "trains st = sampleW001 # ts" by (simp add: st_def)
  have rs: "reachable st" using r by (simp add: st_def)
  obtain ts' where u: "updateTrainPositions initialFactors (\<lambda>_. sampleTickDraws)
      (trains st) = Inr ts'"
    using reachable_tick_total [OF rs] by blast
  have i: "0 < length (trains st)" by (simp add: tr)
  from tick_progress_and_delay [OF rs factorsInRange_initial _ u i] validTick_sample
  have "positionInSegment (ts' ! 0) = 0 \<and> delay (ts' ! 0) = 1 / 4
      \<and> delay (trains st ! 0) \<le> delay (ts' ! 0)"
    by (simp add: tr sampleW001_def sampleTickDraws_def delayMultiplier_eq initialFactors_def)
  with e r u validTick_sample factorsInRange_initial show ?thesis
    by (simp add: tr sampleW001_def)
qed

text \<open>C9 as stated fails: after a start with the clock at 135000 ms, the first Western train
  has progress 0.975; one tick with all factors at zero resets it to 0, which is not
  0.975 + 0.05.\<close>

theorem progress_increment_counterexample:
  "(case initializeTrains (\<lambda>_ _. sampleInitDraws) of
      Inl _ \<Rightarrow> False
    | Inr ts \<Rightarrow>
        (case updateTrainPositions initialFactors (\<lambda>_. sampleTickDraws) ts of
           Inl _ \<Rightarrow> False
         | Inr ts' \<Rightarrow>
             trainId (ts ! 0) = ''W001'' \<and> line (ts ! 0) = Western
             \<and> positionInSegment (ts ! 0) = 39 / 40 \<and> positionInSegment (ts' ! 0) = 0
             \<and> positionInSegment (ts' ! 0) \<noteq> positionInSegment (ts ! 0) + 0.05))"
proof -
  obtain ts where e: "initializeTrains (\<lambda>_ _. sampleInitDraws) = Inr (sampleW001 # ts)"
    and r: "reachable (initialState\<lparr>trains := sampleW001 # ts\<rparr>)"
    by (rule sample_start)
  from reachable_tick_total [OF r, of initialFactors "\<lambda>_. sampleTickDraws"]
  have "\<exists>ts'. updateTrainPositions initialFactors (\<lambda>_. sampleTickDraws)
      (sampleW001 # ts) = Inr ts'" by simp
  then obtain ts' where u: "updateTrainPositions initialFactors (\<lambda>_. sampleTickDraws)
      (sampleW001 # ts) = Inr ts'" ..
  then have "updateTrain initialFactors sampleTickDraws sampleW001 = Inr (ts' ! 0)"
    by (auto simp: updateTrainPositions_Inr_iff)
  then have "ts' ! 0 = sampleW001Next" by (simp add: updateTrain_sample)
  with e u show ?thesis by (simp add: sampleW001_def sampleW001Next_def)
qed

text \<open>
  C2. The claim asks for a passenger count clamped to \<open>[0, 2000]\<close> after every tick.
  Line 382 caps the count at 2000 with \<^verbatim>\<open>Math.min\<close> and has no floor at 0, so the code
  breaks the claim: the first Western train, created with passenger draw 0, has 200
  passengers, after ten ticks with passenger draw 0 (delta -20 each) it has 0, and the
  eleventh tick gives it -20 passengers, where the clamp gives 0.
\<close>

theorem passengers_negative_after_ticks:
  "validInit sampleInitDraws \<and> validTick sampleTickDraws
   \<and> initTrain Western 0 0 sampleInitDraws [] = Inr [sampleW001]
   \<and> passengers sampleW001 = 200
   \<and> \<lfloor>tPassengers sampleTickDraws * 50 - 20\<rfloor> = - 20
   \<and> map_sum id passengers (tickTimes initialFactors sampleTickDraws 11 sampleW001) = Inr (- 20)
   \<and> \<not> (0 \<le> (- 20 :: int) \<and> (- 20 :: int) \<le> 2000)"
  by (simp add: validInit_sample validTick_sample initTrain_sample tickTimes_sample)
    (simp add: sampleW001_def sampleTickDraws_def)

subsection \<open>Claims about manual actions\<close>

text \<open>
  C7. For a train of the registry with the given id, hold sets its delay to the old delay
  plus 3 and its status to Delayed; swap sets its delay to the maximum of 0 and the old
  delay minus 2, which is below the old delay or 0, and for a delay that is not negative
  is below the old delay or stays 0; reroute sets its delay to the old delay plus 8 and
  its status to Critical.
\<close>

theorem quick_action_effect:
  assumes "i < length (trains st)" and "trainId (trains st ! i) = tid"
  shows "delay (trains (performQuickAction ''hold'' tid timestamp st) ! i)
        = delay (trains st ! i) + 3
     \<and> status (trains (performQuickAction ''hold'' tid timestamp st) ! i) = Delayed
     \<and> delay (trains (performQuickAction ''swap'' tid timestamp st) ! i)
        = max 0 (delay (trains st ! i) - 2)
     \<and> (delay (trains (performQuickAction ''swap'' tid timestamp st) ! i) < delay (trains st ! i)
        \<or> delay (trains (performQuickAction ''swap'' tid timestamp st) ! i) = 0)
     \<and> (0 \<le> delay (trains st ! i) \<longrightarrow>
          delay (trains (performQuickAction ''swap'' tid timestamp st) ! i) < delay (trains st ! i)
          \<or> (delay (trains st ! i) = 0
             \<and> delay (trains (performQuickAction ''swap'' tid timestamp st) ! i) = 0))
     \<and> delay (trains (performQuickAction ''reroute'' tid timestamp st) ! i)
        = delay (trains st ! i) + 8
     \<and> status (trains (performQuickAction ''reroute'' tid timestamp st) ! i) = Critical"
  using assms by (auto simp: performQuickAction_def quickActionTrain_def)

text \<open>C7 at \<open>sampleState\<close> and the id of its train, whose delay is 0.\<close>

theorem quick_action_effect_witness:
  "(0::nat) < length (trains sampleState) \<and> trainId (trains sampleState ! 0) = ''W001''
   \<and> delay (trains sampleState ! 0) = 0
   \<and> delay (trains (performQuickAction ''hold'' ''W001'' ''10:15:00 AM'' sampleState) ! 0) = 3
   \<and> status (trains (performQuickAction ''hold'' ''W001'' ''10:15:00 AM'' sampleState) ! 0) = Delayed
   \<and> delay (trains (performQuickAction ''swap'' ''W001'' ''10:15:00 AM'' sampleState) ! 0) = 0
   \<and> delay (trains (performQuickAction ''reroute'' ''W001'' ''10:15:00 AM'' sampleState) ! 0) = 8
   \<and> status (trains (performQuickAction ''reroute'' ''W001'' ''10:15:00 AM'' sampleState) ! 0)
       = Critical"
proof -
  have l: "(0::nat) < length (trains sampleState)"
    by (simp add: sampleState_def)
  have t: "trainId (trains sampleState ! 0) = ''W001''"
    by (simp add: sampleState_def sampleW001_def)
  have d: "delay (trains sampleState ! 0) = 0"
    by (simp add: sampleState_def sampleW001_def)
  from quick_action_effect [OF l t, of "''10:15:00 AM''"] l t d show ?thesis by simp
qed

text \<open>
  C1 (as the code has it). For every action name and every train id that no train of
  the registry has, \<^verbatim>\<open>performQuickAction\<close> leaves the registry and the factor levels
  unchanged, and it still writes its log line: the new log is the line for the action
  and the id in front of the first nine entries of the old log.
\<close>

theorem unknown_id_keeps_registry:
  assumes "list_all (\<lambda>t. trainId t \<noteq> tid) (trains st)"
  shows "trains (performQuickAction action tid timestamp st) = trains st
     \<and> disruptionFactors (performQuickAction action tid timestamp st) = disruptionFactors st
     \<and> aiDecisionLog (performQuickAction action tid timestamp st) =
         (''['' @ timestamp @ ''] [ACTION] '' @ toUpperCase action @ '' applied to '' @ tid)
           # take 9 (aiDecisionLog st)"
proof -
  from assms have "map (quickActionTrain action tid) (trains st) = trains st"
    by (intro map_idI) (simp add: list_all_iff quickActionTrain_def)
  then show ?thesis by (simp add: performQuickAction_def addAiDecisionLog_def)
qed

text \<open>C1 at \<open>sampleState\<close> and an id that its registry does not hold.\<close>

theorem unknown_id_keeps_registry_witness:
  "list_all (\<lambda>t. trainId t \<noteq> ''W999'') (trains sampleState)
   \<and> trains (performQuickAction ''hold'' ''W999'' ''10:15:00 AM'' sampleState) = [sampleW001]
   \<and> aiDecisionLog (performQuickAction ''hold'' ''W999'' ''10:15:00 AM'' sampleState) =
       [''[10:15:00 AM] [ACTION] HOLD applied to W999'',
        ''[SYSTEM] AI Optimization Suite Initialized'',
        ''[READY] Awaiting activation command...'']"
proof -
  have a: "list_all (\<lambda>t. trainId t \<noteq> ''W999'') (trains sampleState)"
    by (simp add: sampleState_def sampleW001_def)
  from unknown_id_keeps_registry [OF a, of "''hold''" "''10:15:00 AM''"] a show ?thesis
    by (simp add: sampleState_def initialState_def initialLog_def upper_hold)
qed

text \<open>C1 as stated fails: the hold action on an id that the registry of \<open>sampleState\<close> does
  not hold changes the log from two entries to three.\<close>

theorem unknown_id_logs_counterexample:
  "list_all (\<lambda>t. trainId t \<noteq> ''W999'') (trains sampleState)
   \<and> aiDecisionLog sampleState =
       [''[SYSTEM] AI Optimization Suite Initialized'',
        ''[READY] Awaiting activation command...'']
   \<and> aiDecisionLog (performQuickAction ''hold'' ''W999'' ''10:15:00 AM'' sampleState) =
       [''[10:15:00 AM] [ACTION] HOLD applied to W999'',
        ''[SYSTEM] AI Optimization Suite Initialized'',
        ''[READY] Awaiting activation command...'']
   \<and> aiDecisionLog (performQuickAction ''hold'' ''W999'' ''10:15:00 AM'' sampleState)
       \<noteq> aiDecisionLog sampleState"
  by (simp add: sampleState_def sampleW001_def initialState_def initialLog_def
      performQuickAction_def addAiDecisionLog_def upper_hold)

end
